theory Spec2Isabelle
  imports Complex_Main "HOL-Library.Word" "HOL-Library.AList" "HOL-Library.Multiset"
begin

section \<open>Daily progress tracker: the component state of \<^verbatim>\<open>src/App.jsx\<close>\<close>

text \<open>
  The component keeps its state in React hooks and changes it through a handful of
  handlers. Each handler is modelled as a function from the state (and the clock readings
  it takes) to the next state. The durable store is a record of two key-ordered object
  stores. Conventions:
  \<^item> a JavaScript string that the code inspects (the task name, which is trimmed) is a
    list of UTF-16 code units;
  \<^item> a \<^verbatim>\<open>Date\<close> is its time value in milliseconds; every reading of the clock is a
    parameter of the function that takes it, and the time zone of the browser is a
    parameter too. \<^verbatim>\<open>getDate\<close> and \<^verbatim>\<open>setDate\<close> work in local time, the keys of the
    completion log are UTC dates;
  \<^item> a calendar date, as a key of the completion log or as a displayed date, is its day
    number (the days since 1970-01-01), which stands for the date string;
  \<^item> the completion log is an object of objects: its outer level is an association list
    (keys in insertion order, as \<^verbatim>\<open>Object.keys\<close> enumerates them), its inner level a
    map from task id to boolean. A handler copies the outer object and changes the
    inner ones in place; the state it replaces is not read again, so the model returns
    the new log only;
  \<^item> a JavaScript number that may be \<^verbatim>\<open>NaN\<close> or infinite is a \<open>jsnum\<close>; a quotient and a
    product are rounded as IEEE 754 doubles are.
\<close>

subsection \<open>Data\<close>

type_synonym jsstring = "16 word list"
type_synonym date = int
type_synonym bucket = "int \<rightharpoonup> bool"
type_synonym completions = "(date \<times> bucket) list"

datatype priority = High | Medium | Low

datatype viewmode = Daily | Weekly | Monthly

datatype jsnum = Num int | NaN | PosInfinity | NegInfinity

record task =
  id_task :: int
  name :: jsstring
  color :: string
  priority :: priority
  completedDays :: int
  streak :: int
  createdAt :: int

record updates =
  upd_name :: "jsstring option"
  upd_priority :: "priority option"

record app =
  tasks :: "task list"
  newTaskName :: jsstring
  newTaskPriority :: priority
  dailyCompletion :: completions
  totalDays :: int
  editingTask :: "int option"
  viewMode :: viewmode
  showSummaries :: bool

text \<open>The initial values of the \<^verbatim>\<open>useState\<close> hooks.\<close>

definition initialApp :: app where
  "initialApp = \<lparr>tasks = [], newTaskName = [], newTaskPriority = Medium,
     dailyCompletion = [], totalDays = 7, editingTask = None, viewMode = Daily,
     showSummaries = False\<rparr>"

definition colors :: "string list" where
  "colors = [''#FF6B6B'', ''#4ECDC4'', ''#45B7D1'', ''#96CEB4'', ''#FFEAA7'', ''#DDA0DD'',
     ''#98D8C8'', ''#F7DC6F'', ''#BB8FCE'', ''#85C1E9'']"

subsection \<open>Strings: \<^verbatim>\<open>String.prototype.trim\<close>\<close>

text \<open>The code units ECMAScript counts as white space or line terminators.\<close>

definition isWhiteSpace :: "16 word \<Rightarrow> bool" where
  "isWhiteSpace c \<longleftrightarrow>
     c = 0x9 \<or> c = 0xA \<or> c = 0xB \<or> c = 0xC \<or> c = 0xD \<or> c = 0x20 \<or> c = 0xA0 \<or>
     c = 0x1680 \<or> (0x2000 \<le> c \<and> c \<le> 0x200A) \<or> c = 0x2028 \<or> c = 0x2029 \<or>
     c = 0x202F \<or> c = 0x205F \<or> c = 0x3000 \<or> c = 0xFEFF"

definition trim :: "jsstring \<Rightarrow> jsstring" where
  "trim s = rev (dropWhile isWhiteSpace (rev (dropWhile isWhiteSpace s)))"

subsection \<open>Sorting by priority: \<^verbatim>\<open>Array.prototype.sort\<close> with a comparator\<close>

text \<open>
  \<^verbatim>\<open>sort\<close> is a stable sort (ECMAScript 2019): an element goes before the elements it
  does not compare greater than, and elements that compare equal keep their order.
\<close>

fun insertBy :: "('a \<Rightarrow> 'a \<Rightarrow> int) \<Rightarrow> 'a \<Rightarrow> 'a list \<Rightarrow> 'a list" where
  "insertBy cmp x [] = [x]"
| "insertBy cmp x (y # ys) = (if cmp x y \<le> 0 then x # y # ys else y # insertBy cmp x ys)"

definition sortBy :: "('a \<Rightarrow> 'a \<Rightarrow> int) \<Rightarrow> 'a list \<Rightarrow> 'a list" where
  "sortBy cmp xs = foldr (insertBy cmp) xs []"

fun priorityOrder :: "priority \<Rightarrow> int" where
  "priorityOrder High = 3"
| "priorityOrder Medium = 2"
| "priorityOrder Low = 1"

definition comparePriority :: "task \<Rightarrow> task \<Rightarrow> int" where
  "comparePriority a b = priorityOrder (priority b) - priorityOrder (priority a)"

subsection \<open>The handlers\<close>

definition addTask :: "app \<Rightarrow> int \<Rightarrow> int \<Rightarrow> app" where
  \<comment> \<open>\<open>now\<close> is \<^verbatim>\<open>Date.now()\<close>, \<open>created\<close> the instant of \<^verbatim>\<open>new Date()\<close>\<close>
  "addTask s now created =
     (if trim (newTaskName s) \<noteq> [] then
        let newTask = \<lparr>id_task = now, name = trim (newTaskName s),
              color = colors ! (length (tasks s) mod length colors),
              priority = newTaskPriority s, completedDays = 0, streak = 0,
              createdAt = created\<rparr>;
            updatedTasks = sortBy comparePriority (tasks s @ [newTask])
        in s\<lparr>tasks := updatedTasks, newTaskName := [], newTaskPriority := Medium\<rparr>
      else s)"

definition applyUpdates :: "task \<Rightarrow> updates \<Rightarrow> task" where
  \<comment> \<open>\<^verbatim>\<open>{ ...task, ...updates }\<close>\<close>
  "applyUpdates t u =
     t\<lparr>name := (case upd_name u of None \<Rightarrow> name t | Some n \<Rightarrow> n),
       priority := (case upd_priority u of None \<Rightarrow> priority t | Some p \<Rightarrow> p)\<rparr>"

definition updateTask :: "app \<Rightarrow> int \<Rightarrow> updates \<Rightarrow> app" where
  "updateTask s taskId u =
     (let updatedTasks = sortBy comparePriority
            (map (\<lambda>t. if id_task t = taskId then applyUpdates t u else t) (tasks s))
      in s\<lparr>tasks := updatedTasks, editingTask := None\<rparr>)"

definition removeTask :: "app \<Rightarrow> int \<Rightarrow> app" where
  "removeTask s taskId =
     s\<lparr>tasks := filter (\<lambda>t. id_task t \<noteq> taskId) (tasks s),
       dailyCompletion := map (\<lambda>(d, b). (d, b(taskId := None))) (dailyCompletion s)\<rparr>"

definition truthy :: "bool option \<Rightarrow> bool" where
  \<comment> \<open>a missing property reads \<^verbatim>\<open>undefined\<close>, which is falsy\<close>
  "truthy v = (case v of None \<Rightarrow> False | Some b \<Rightarrow> b)"

definition toggleTaskCompletion :: "app \<Rightarrow> int \<Rightarrow> date \<Rightarrow> app" where
  "toggleTaskCompletion s taskId d =
     (let dc0 = dailyCompletion s;
          dc1 = (case map_of dc0 d of None \<Rightarrow> AList.update d Map.empty dc0 | Some _ \<Rightarrow> dc0);
          dc2 = AList.map_entry d (\<lambda>b. b(taskId \<mapsto> \<not> truthy (b taskId))) dc1
      in s\<lparr>dailyCompletion := dc2\<rparr>)"

subsection \<open>Numbers: IEEE 754 doubles\<close>

text \<open>
  A finite double is kept as the fraction it denotes: a numerator and a positive
  denominator. An operation takes the exact result and rounds it to the nearest number
  with a 53-bit significand, a tie going to the even significand. Counts and windows are
  far below \<open>2^53\<close> and the quotients far inside the normal range, so neither overflow
  nor subnormal numbers occur.
\<close>

type_synonym double = "int \<times> int"

function bitLength :: "int \<Rightarrow> nat" where
  "bitLength n = (if n \<le> 0 then 0 else Suc (bitLength (n div 2)))"
  by pat_completeness auto
termination
  by (relation "measure nat") auto

declare bitLength.simps [simp del]

definition scaleBy :: "int \<Rightarrow> int \<Rightarrow> int \<Rightarrow> int \<times> int" where
  \<comment> \<open>the fraction \<open>n * 2^k / d\<close>\<close>
  "scaleBy n d k = (if 0 \<le> k then (n * 2 ^ nat k, d) else (n, d * 2 ^ nat (- k)))"

definition tiesToEven :: "int \<Rightarrow> int \<Rightarrow> int \<Rightarrow> int" where
  \<comment> \<open>the integer nearest to \<open>q + r / d\<close> for \<open>0 \<le> r < d\<close>, a tie going to the even one\<close>
  "tiesToEven q r d =
     (if 2 * r < d then q else if d < 2 * r then q + 1 else if even q then q else q + 1)"

definition roundFraction :: "int \<times> int \<Rightarrow> int" where
  "roundFraction f = tiesToEven (fst f div snd f) (fst f mod snd f) (snd f)"

definition belowSignificand :: "int \<times> int \<Rightarrow> bool" where
  "belowSignificand f \<longleftrightarrow> fst f < 2 ^ 52 * snd f"

definition significandShift :: "int \<Rightarrow> int \<Rightarrow> int" where
  \<comment> \<open>the \<open>k\<close> with \<open>2^52 \<le> a * 2^k / d < 2^53\<close>, for \<open>0 < a\<close> and \<open>0 < d\<close>\<close>
  "significandShift a d =
     (let k0 = 52 - int (bitLength a) + int (bitLength d)
      in if belowSignificand (scaleBy a d k0) then k0 + 1 else k0)"

definition withShift :: "int \<Rightarrow> int \<Rightarrow> double" where
  \<comment> \<open>the fraction \<open>m / 2^k\<close>\<close>
  "withShift k m = (if 0 \<le> k then (m, 2 ^ nat k) else (m * 2 ^ nat (- k), 1))"

definition nearestDouble :: "int \<Rightarrow> int \<Rightarrow> double" where
  \<comment> \<open>the double nearest to \<open>n / d\<close>, for \<open>0 < d\<close>\<close>
  "nearestDouble n d =
     (if n = 0 then (0, 1)
      else let k = significandShift \<bar>n\<bar> d
           in withShift k (sgn n * roundFraction (scaleBy \<bar>n\<bar> d k)))"

definition fromInt :: "int \<Rightarrow> double" where
  "fromInt n = (n, 1)"

definition fdiv :: "double \<Rightarrow> double \<Rightarrow> double" where
  \<comment> \<open>\<^verbatim>\<open>x / y\<close> for \<open>y \<noteq> 0\<close>\<close>
  "fdiv x y =
     (let num = fst x * snd y; den = snd x * fst y
      in if 0 < den then nearestDouble num den else nearestDouble (- num) (- den))"

definition fmul :: "double \<Rightarrow> double \<Rightarrow> double" where
  \<comment> \<open>\<^verbatim>\<open>x * y\<close>\<close>
  "fmul x y = nearestDouble (fst x * fst y) (snd x * snd y)"

definition mathRound :: "double \<Rightarrow> int" where
  \<comment> \<open>\<^verbatim>\<open>Math.round\<close>: the nearest integer, a tie going up; that is \<open>\<lfloor>x + 1/2\<rfloor>\<close>\<close>
  "mathRound x = (2 * fst x + snd x) div (2 * snd x)"

definition percentOf :: "int \<Rightarrow> int \<Rightarrow> jsnum" where
  \<comment> \<open>\<^verbatim>\<open>Math.round((a / b) * 100)\<close>\<close>
  "percentOf a b =
     (if b = 0 then (if a = 0 then NaN else if 0 < a then PosInfinity else NegInfinity)
      else Num (mathRound (fmul (fdiv (fromInt a) (fromInt b)) (fromInt 100))))"

subsection \<open>Dates: \<^verbatim>\<open>Date\<close> objects\<close>

text \<open>
  A \<^verbatim>\<open>Date\<close> is its time value, the milliseconds since the epoch in UTC.
  \<^verbatim>\<open>getDate\<close> and \<^verbatim>\<open>setDate\<close> work on the local time, \<^verbatim>\<open>toISOString\<close> on UTC. The
  time zone of the browser is a parameter: the offset of local time at a UTC instant, and
  the offset with which a local time is read back (at a change of offset, a local time
  that is skipped or occurs twice is read with the offset before the change). The day of
  the month cancels out where a date is moved by a number of days from its own day, and
  is computed where one date is set from the day of another. The time values stay far
  inside the range of valid dates, so no date becomes invalid.
\<close>

definition msPerDay :: int where
  "msPerDay = 86400000"

definition Day :: "int \<Rightarrow> int" where
  "Day t = t div msPerDay"

definition TimeWithinDay :: "int \<Rightarrow> int" where
  "TimeWithinDay t = t mod msPerDay"

definition DateFromDay :: "int \<Rightarrow> int" where
  \<comment> \<open>the day of the month of a day number, in the proleptic Gregorian calendar\<close>
  "DateFromDay z =
     (let doe = (z + 719468) mod 146097;
          yoe = (doe - doe div 1460 + doe div 36524 - doe div 146096) div 365;
          doy = doe - (365 * yoe + yoe div 4 - yoe div 100);
          mp = (5 * doy + 2) div 153
      in doy - (153 * mp + 2) div 5 + 1)"

definition DateFromTime :: "int \<Rightarrow> int" where
  "DateFromTime t = DateFromDay (Day t)"

record timezone =
  tzaUTC :: "int \<Rightarrow> int"
  tzaLocal :: "int \<Rightarrow> int"

definition LocalTime :: "timezone \<Rightarrow> int \<Rightarrow> int" where
  "LocalTime tz t = t + tzaUTC tz t"

definition UTC :: "timezone \<Rightarrow> int \<Rightarrow> int" where
  "UTC tz t = t - tzaLocal tz t"

definition getDate :: "timezone \<Rightarrow> int \<Rightarrow> int" where
  "getDate tz t = DateFromTime (LocalTime tz t)"

definition setDate :: "timezone \<Rightarrow> int \<Rightarrow> int \<Rightarrow> int" where
  \<comment> \<open>the new time value: day \<open>dt\<close> of the local month of \<open>t\<close>, at the local time of day of \<open>t\<close>\<close>
  "setDate tz t dt =
     (let lt = LocalTime tz t;
          newDay = Day lt - DateFromTime lt + dt;
          newDate = newDay * msPerDay + TimeWithinDay lt
      in UTC tz newDate)"

definition toISODate :: "int \<Rightarrow> date" where
  \<comment> \<open>\<^verbatim>\<open>toISOString().split('T')[0]\<close>: the UTC date, as a day number\<close>
  "toISODate t = Day t"

definition getTodayDate :: "int \<Rightarrow> date" where
  "getTodayDate now = toISODate now"

definition toLocaleDate :: "timezone \<Rightarrow> int \<Rightarrow> date" where
  \<comment> \<open>\<^verbatim>\<open>toLocaleDateString()\<close>: the local date, as a day number\<close>
  "toLocaleDate tz t = Day (LocalTime tz t)"

subsection \<open>Statistics\<close>

definition completedOn :: "completions \<Rightarrow> date \<Rightarrow> int \<Rightarrow> bool" where
  \<comment> \<open>\<^verbatim>\<open>dailyCompletion[dateStr] && dailyCompletion[dateStr][taskId]\<close>\<close>
  "completedOn dc d taskId =
     (case map_of dc d of None \<Rightarrow> False | Some b \<Rightarrow> truthy (b taskId))"

text \<open>
  The loops over dates end when the date passes the end date. With a time zone whose
  offsets jump by a day or more they need not end, so they are partial functions.
\<close>

partial_function (option) countCompleted ::
  "timezone \<Rightarrow> completions \<Rightarrow> int \<Rightarrow> int \<Rightarrow> int \<Rightarrow> int \<Rightarrow> int option" where
  "countCompleted tz dc taskId d endDate completedCount =
     (if d \<le> endDate then
        countCompleted tz dc taskId (setDate tz d (getDate tz d + 1)) endDate
          (if completedOn dc (toISODate d) taskId then completedCount + 1 else completedCount)
      else Some completedCount)"

declare countCompleted.simps [code]

definition getTaskCompletionRate :: "timezone \<Rightarrow> app \<Rightarrow> int \<Rightarrow> int \<Rightarrow> int \<Rightarrow> jsnum option" where
  \<comment> \<open>\<open>endNow\<close> and \<open>startNow\<close> are the two readings \<^verbatim>\<open>new Date()\<close>, in this order\<close>
  "getTaskCompletionRate tz s endNow startNow taskId =
     (let endDate = endNow;
          startDate = setDate tz startNow (getDate tz endDate - totalDays s + 1)
      in case countCompleted tz (dailyCompletion s) taskId startDate endDate 0 of
           None \<Rightarrow> None
         | Some completedCount \<Rightarrow> Some (percentOf completedCount (totalDays s)))"

function streakLoop :: "timezone \<Rightarrow> completions \<Rightarrow> int \<Rightarrow> int \<Rightarrow> int \<Rightarrow> int \<Rightarrow> int" where
  "streakLoop tz dc taskId today i n =
     (if i < 30 then
        (if completedOn dc (toISODate (setDate tz today (getDate tz today - i))) taskId
         then streakLoop tz dc taskId today (i + 1) (n + 1)
         else n)
      else n)"
  by pat_completeness auto
termination
  by (relation "measure (\<lambda>(tz, dc, taskId, today, i, n). nat (30 - i))") auto

declare streakLoop.simps [simp del]

definition getStreak :: "timezone \<Rightarrow> app \<Rightarrow> int \<Rightarrow> int \<Rightarrow> int" where
  \<comment> \<open>\<open>now\<close> is the reading \<^verbatim>\<open>new Date()\<close>\<close>
  "getStreak tz s now taskId = streakLoop tz (dailyCompletion s) taskId now 0 0"

subsection \<open>Weekly summary\<close>

record weekEntry =
  week :: string
  completion :: jsnum
  startDate :: date
  endDate :: date

text \<open>
  The body of \<^verbatim>\<open>tasks.forEach\<close> for one day: every task adds a possible slot, a task
  completed on that day adds a completed slot. The pair is
  \<open>(totalCompletions, totalPossible)\<close>.
\<close>

fun tasksLoop :: "completions \<Rightarrow> date \<Rightarrow> task list \<Rightarrow> int \<times> int \<Rightarrow> int \<times> int" where
  "tasksLoop dc d [] acc = acc"
| "tasksLoop dc d (t # ts) (totalCompletions, totalPossible) =
     tasksLoop dc d ts
       (if completedOn dc d (id_task t) then totalCompletions + 1 else totalCompletions,
        totalPossible + 1)"

partial_function (option) daysLoop ::
  "timezone \<Rightarrow> completions \<Rightarrow> task list \<Rightarrow> int \<Rightarrow> int \<Rightarrow> int \<times> int \<Rightarrow> (int \<times> int) option" where
  "daysLoop tz dc ts d weekEnd acc =
     (if d \<le> weekEnd then
        daysLoop tz dc ts (setDate tz d (getDate tz d + 1)) weekEnd
          (tasksLoop dc (toISODate d) ts acc)
      else Some acc)"

declare daysLoop.simps [code]

definition weekEndOf :: "timezone \<Rightarrow> int \<Rightarrow> int \<Rightarrow> int" where
  "weekEndOf tz now i = setDate tz now (getDate tz now - i * 7)"

definition weekStartOf :: "timezone \<Rightarrow> int \<Rightarrow> int \<Rightarrow> int" where
  "weekStartOf tz now i = setDate tz (weekEndOf tz now i) (getDate tz (weekEndOf tz now i) - 6)"

definition weekTotals :: "timezone \<Rightarrow> app \<Rightarrow> int \<Rightarrow> int \<Rightarrow> (int \<times> int) option" where
  \<comment> \<open>\<open>(totalCompletions, totalPossible)\<close> of the window that ends \<open>7 * i\<close> days ago\<close>
  "weekTotals tz s now i =
     daysLoop tz (dailyCompletion s) (tasks s) (weekStartOf tz now i) (weekEndOf tz now i) (0, 0)"

definition weekLabel :: "int \<Rightarrow> string" where
  \<comment> \<open>the template \<^verbatim>\<open>`Week ${4 - i}`\<close>; \<open>4 - i\<close> is a single digit in the loop\<close>
  "weekLabel i = ''Week '' @ [char_of (48 + (4 - i))]"

definition weekEntryOf :: "timezone \<Rightarrow> app \<Rightarrow> int \<Rightarrow> int \<Rightarrow> weekEntry option" where
  "weekEntryOf tz s now i =
     (case weekTotals tz s now i of
        None \<Rightarrow> None
      | Some (totalCompletions, totalPossible) \<Rightarrow>
          Some \<lparr>week = weekLabel i,
                completion = (if 0 < totalPossible then percentOf totalCompletions totalPossible
                              else Num 0),
                startDate = toLocaleDate tz (weekStartOf tz now i),
                endDate = toLocaleDate tz (weekEndOf tz now i)\<rparr>)"

function weeksLoop ::
  "timezone \<Rightarrow> app \<Rightarrow> int \<Rightarrow> int \<Rightarrow> weekEntry list \<Rightarrow> weekEntry list option" where
  "weeksLoop tz s now i weeks =
     (if i < 4 then
        (case weekEntryOf tz s now i of
           None \<Rightarrow> None
         | Some w \<Rightarrow> weeksLoop tz s now (i + 1) (weeks @ [w]))
      else Some weeks)"
  by pat_completeness auto
termination
  by (relation "measure (\<lambda>(tz, s, now, i, weeks). nat (4 - i))") auto

declare weeksLoop.simps [simp del]

definition getWeeklySummary :: "timezone \<Rightarrow> app \<Rightarrow> int \<Rightarrow> weekEntry list option" where
  \<comment> \<open>\<open>now\<close> is the reading \<^verbatim>\<open>new Date()\<close>\<close>
  "getWeeklySummary tz s now = map_option rev (weeksLoop tz s now 0 [])"

subsection \<open>Durable storage\<close>

text \<open>
  An object store holds one record per key, in key order. \<^verbatim>\<open>put\<close> replaces the record
  with the same key or inserts a new one; nothing in the component deletes a record.
\<close>

type_synonym 'v objectStore = "(int \<times> 'v) list"

record completionEntry =
  entry_id :: date
  entry_data :: bucket

record db =
  tasksStore :: "task objectStore"
  completionsStore :: "completionEntry objectStore"

definition emptyDB :: db where
  "emptyDB = \<lparr>tasksStore = [], completionsStore = []\<rparr>"

fun put :: "int \<Rightarrow> 'v \<Rightarrow> 'v objectStore \<Rightarrow> 'v objectStore" where
  "put k v [] = [(k, v)]"
| "put k v ((k', v') # rest) =
     (if k < k' then (k, v) # (k', v') # rest
      else if k = k' then (k, v) # rest
      else (k', v') # put k v rest)"

definition saveToIndexedDB :: "('v \<Rightarrow> int) \<Rightarrow> 'v list \<Rightarrow> 'v objectStore \<Rightarrow> 'v objectStore" where
  \<comment> \<open>the array branch, the only one the callers take; the first argument is the key path\<close>
  "saveToIndexedDB keyPath items store = fold (\<lambda>item st. put (keyPath item) item st) items store"

definition loadFromIndexedDB :: "'v objectStore \<Rightarrow> 'v list" where
  \<comment> \<open>\<^verbatim>\<open>getAll\<close>\<close>
  "loadFromIndexedDB store = map snd store"

definition saveTasks :: "app \<Rightarrow> db \<Rightarrow> db" where
  \<comment> \<open>the effect on \<^verbatim>\<open>[tasks]\<close>\<close>
  "saveTasks s st =
     (if 0 < length (tasks s)
      then st\<lparr>tasksStore := saveToIndexedDB id_task (tasks s) (tasksStore st)\<rparr>
      else st)"

definition saveCompletions :: "app \<Rightarrow> db \<Rightarrow> db" where
  \<comment> \<open>the effect on \<^verbatim>\<open>[dailyCompletion]\<close>\<close>
  "saveCompletions s st =
     (let completionEntries =
            map (\<lambda>(d, b). \<lparr>entry_id = d, entry_data = b\<rparr>) (dailyCompletion s)
      in if 0 < length completionEntries
         then st\<lparr>completionsStore :=
                saveToIndexedDB entry_id completionEntries (completionsStore st)\<rparr>
         else st)"

definition persist :: "app \<Rightarrow> db \<Rightarrow> db" where
  "persist s st = saveCompletions s (saveTasks s st)"

definition loadData :: "db \<Rightarrow> app \<Rightarrow> app" where
  "loadData st s =
     (let loadedTasks = loadFromIndexedDB (tasksStore st);
          loadedCompletions = loadFromIndexedDB (completionsStore st);
          s1 = (if 0 < length loadedTasks
                then s\<lparr>tasks := sortBy comparePriority loadedTasks\<rparr> else s);
          s2 = (if 0 < length loadedCompletions
                then s1\<lparr>dailyCompletion :=
                       fold (\<lambda>c m. AList.update (entry_id c) (entry_data c) m)
                         loadedCompletions []\<rparr>
                else s1)
      in s2)"

subsection \<open>Sessions\<close>

text \<open>
  One user action on the mounted component: a handler, or the setter of a piece of
  interface state. A session is a list of actions performed in order.
\<close>

datatype action =
    AddTask int int
  | UpdateTask int updates
  | RemoveTask int
  | ToggleTaskCompletion int date
  | SetNewTaskName jsstring
  | SetNewTaskPriority priority
  | SetTotalDays int
  | SetEditingTask "int option"
  | SetViewMode viewmode
  | SetShowSummaries bool

fun perform :: "app \<Rightarrow> action \<Rightarrow> app" where
  "perform s (AddTask now created) = addTask s now created"
| "perform s (UpdateTask taskId u) = updateTask s taskId u"
| "perform s (RemoveTask taskId) = removeTask s taskId"
| "perform s (ToggleTaskCompletion taskId d) = toggleTaskCompletion s taskId d"
| "perform s (SetNewTaskName n) = s\<lparr>newTaskName := n\<rparr>"
| "perform s (SetNewTaskPriority p) = s\<lparr>newTaskPriority := p\<rparr>"
| "perform s (SetTotalDays k) = s\<lparr>totalDays := k\<rparr>"
| "perform s (SetEditingTask e) = s\<lparr>editingTask := e\<rparr>"
| "perform s (SetViewMode v) = s\<lparr>viewMode := v\<rparr>"
| "perform s (SetShowSummaries b) = s\<lparr>showSummaries := b\<rparr>"

definition session :: "app \<Rightarrow> action list \<Rightarrow> app" where
  "session s acts = foldl perform s acts"


text \<open>
  A change of \<^verbatim>\<open>tasks\<close> or of \<^verbatim>\<open>dailyCompletion\<close> runs the saving effect of that
  collection. Here both effects run after every action: putting again the records of a
  collection that did not change leaves the database as it is. A saved session starts
  from the initial state and an empty database.
\<close>

fun performAndSave :: "app \<times> db \<Rightarrow> action \<Rightarrow> app \<times> db" where
  "performAndSave (s, st) a = (let s' = perform s a in (s', persist s' st))"

definition savedSession :: "action list \<Rightarrow> app \<times> db" where
  "savedSession acts = foldl performAndSave (initialApp, emptyDB) acts"

subsection \<open>Time zones and clock readings of the examples\<close>

text \<open>
  UTC; London in 2026, with summer time from 29 March 01:00 UTC to 25 October 01:00 UTC;
  New York in 2026, with daylight time from 8 March 07:00 UTC to 1 November 06:00 UTC.
\<close>

definition utcZone :: timezone where
  "utcZone = \<lparr>tzaUTC = (\<lambda>t. 0), tzaLocal = (\<lambda>t. 0)\<rparr>"

definition london2026 :: timezone where
  "london2026 =
     \<lparr>tzaUTC = (\<lambda>t. if 1774746000000 \<le> t \<and> t < 1792890000000 then 3600000 else 0),
      tzaLocal = (\<lambda>t. if 1774749600000 \<le> t \<and> t < 1792893600000 then 3600000 else 0)\<rparr>"

definition newYork2026 :: timezone where
  "newYork2026 =
     \<lparr>tzaUTC = (\<lambda>t. if 1772953200000 \<le> t \<and> t < 1793512800000 then - 14400000
                     else - 18000000),
      tzaLocal = (\<lambda>t. if 1772938800000 \<le> t \<and> t < 1793498400000 then - 14400000
                       else - 18000000)\<rparr>"

subsection \<open>Notions of the specification and example states\<close>

text \<open>
  The number of days of the tracking window \<open>[today - totalDays + 1, today]\<close> on which
  the task reads as completed: what the specification says the completion rate counts.
\<close>

definition daysCompletedInWindow :: "app \<Rightarrow> date \<Rightarrow> int \<Rightarrow> int" where
  "daysCompletedInWindow s today taskId =
     int (length (filter (\<lambda>d. completedOn (dailyCompletion s) d taskId)
                    [today - totalDays s + 1..today]))"

text \<open>
  The completed slots of the days \<open>a, ..., b\<close>: the pairs of a day and a task of the
  list such that the task reads as completed on that day.
\<close>

definition completedSlots :: "app \<Rightarrow> date \<Rightarrow> date \<Rightarrow> int" where
  "completedSlots s a b =
     (\<Sum>d\<leftarrow>[a..b]. int (length (filter (\<lambda>t. completedOn (dailyCompletion s) d (id_task t)) (tasks s))))"

text \<open>
  The local time zone keeps one offset \<open>off\<close> from UTC between the instants \<open>lo\<close> and
  \<open>hi\<close>: the offset at these instants is \<open>off\<close>, and the local times they have are
  read back with \<open>off\<close>.
\<close>

definition fixedOffset :: "timezone \<Rightarrow> int \<Rightarrow> int \<Rightarrow> int \<Rightarrow> bool" where
  "fixedOffset tz off lo hi \<longleftrightarrow>
     (\<forall>t. lo \<le> t \<and> t \<le> hi \<longrightarrow> tzaUTC tz t = off \<and> tzaLocal tz (t + off) = off)"

text \<open>
  The order the specification asks of the visible list: a task never stands before a
  task of higher priority. \<open>hasPriority p\<close> selects the tasks of one priority, whose
  relative order a stable sort keeps.
\<close>

definition prioritySorted :: "task list \<Rightarrow> bool" where
  "prioritySorted ts =
     sorted_wrt (\<lambda>a b. priorityOrder (priority b) \<le> priorityOrder (priority a)) ts"

definition hasPriority :: "priority \<Rightarrow> task \<Rightarrow> bool" where
  "hasPriority p t \<longleftrightarrow> priority t = p"

text \<open>A task completed on three of the last seven days before day 100.\<close>

definition threeOfSeven :: app where
  "threeOfSeven =
     toggleTaskCompletion (toggleTaskCompletion (toggleTaskCompletion initialApp 5 100) 5 98) 5 95"

text \<open>A task completed today (day 100) and yesterday, but not the day before.\<close>

definition twoDayRun :: app where
  "twoDayRun = toggleTaskCompletion (toggleTaskCompletion initialApp 5 100) 5 99"

text \<open>One task of low priority, named \<open>a\<close> after trimming, created at instant 5.\<close>

definition oneTask :: app where
  "oneTask = addTask (initialApp\<lparr>newTaskName := [0x20, 0x61, 0x20], newTaskPriority := Low\<rparr>) 5 5"

text \<open>
  Two tasks are added and completed on day 100, then the first is removed; in the second
  session the only task is removed.
\<close>

definition removeScenario :: "action list" where
  "removeScenario =
     [SetNewTaskName [0x61], AddTask 1 1, SetNewTaskName [0x62], AddTask 2 2,
      ToggleTaskCompletion 1 100, ToggleTaskCompletion 2 100, RemoveTask 1]"

definition removeLastScenario :: "action list" where
  "removeLastScenario = [SetNewTaskName [0x61], AddTask 1 1, RemoveTask 1]"

definition beforeRemove :: app where
  "beforeRemove = fst (savedSession (butlast removeScenario))"


text \<open>
  Clock readings: noon UTC of day 100; 2026-03-30 23:30 UTC, which is 00:30 on 31 March
  in London; 2026-03-11 06:30 UTC, which is 02:30 in New York.
\<close>

definition noonOfDay100 :: int where
  "noonOfDay100 = 8683200000"

definition londonNight :: int where
  "londonNight = 1774913400000"

definition newYorkNight :: int where
  "newYorkNight = 1773210600000"


text \<open>
  A task completed on 2026-03-30 and 2026-03-29 (days 20542 and 20541); one task of the
  list completed on 2026-03-29 only; one task completed on 2026-03-11 (day 20523) only.
\<close>

definition londonRun :: app where
  "londonRun = toggleTaskCompletion (toggleTaskCompletion initialApp 5 20542) 5 20541"

definition londonTask :: app where
  "londonTask =
     toggleTaskCompletion (addTask (initialApp\<lparr>newTaskName := [0x61]\<rparr>) 5 5) 5 20541"

definition newYorkTask :: app where
  "newYorkTask =
     toggleTaskCompletion (addTask (initialApp\<lparr>newTaskName := [0x61]\<rparr>) 5 5) 5 20523"

section \<open>Properties\<close>

subsection \<open>Auxiliary facts: arithmetic\<close>

text \<open>\<^verbatim>\<open>Math.round\<close> is the floor of the number plus one half.\<close>

lemma mathRound_floor:
  "0 < snd x \<Longrightarrow> mathRound x = \<lfloor>rat_of_int (fst x) / rat_of_int (snd x) + 1 / 2\<rfloor>"
proof -
  assume d: "0 < snd x"
  have "rat_of_int (fst x) / rat_of_int (snd x) + 1 / 2 =
        rat_of_int (2 * fst x + snd x) / rat_of_int (2 * snd x)"
    using d by (simp add: field_simps)
  then show ?thesis
    unfolding mathRound_def by (simp only: floor_divide_of_int_eq)
qed


text \<open>
  For the windows that the period selector offers, the percentage computed in doubles is
  the exact quotient rounded half-up: every count is evaluated. It is not so for every
  window: 23 of 40 and 161 of 280 are 57.5 percent, the double is just below, and the
  result is 57.
\<close>

lemmas double_eval = percentOf_def fdiv_def fmul_def fromInt_def mathRound_def nearestDouble_def
      scaleBy_def bitLength.simps Let_def tiesToEven_def roundFraction_def belowSignificand_def
      significandShift_def withShift_def



lemma percent_ties_below:
  "percentOf 23 40 = Num 57" "percentOf 161 280 = Num 57"
  by (simp_all add: double_eval)


subsection \<open>Auxiliary facts: the completion log\<close>

lemma map_of_toggle:
  "map_of (dailyCompletion (toggleTaskCompletion s taskId d)) =
     (map_of (dailyCompletion s))(d \<mapsto>
        (let b = (case map_of (dailyCompletion s) d of None \<Rightarrow> Map.empty | Some b \<Rightarrow> b)
         in b(taskId \<mapsto> \<not> truthy (b taskId))))"
  by (auto simp: toggleTaskCompletion_def Let_def map_of_map_entry update_conv' fun_eq_iff
      split: option.splits)

lemma completedOn_toggle:
  "completedOn (dailyCompletion (toggleTaskCompletion s taskId d)) d' t' =
     (if d' = d \<and> t' = taskId then \<not> completedOn (dailyCompletion s) d taskId
      else completedOn (dailyCompletion s) d' t')"
  by (auto simp: completedOn_def map_of_toggle Let_def truthy_def split: option.splits)

lemma completedOn_no_entries:
  "\<forall>(d, b) \<in> set dc. b taskId = None \<Longrightarrow> \<not> completedOn dc d taskId"
  by (auto simp: completedOn_def truthy_def split: option.splits dest!: map_of_SomeD)


subsection \<open>Auxiliary facts: dates\<close>

lemma msPerDay_pos: "0 < msPerDay"
  by (simp add: msPerDay_def)

lemma Day_shift: "Day (t + k * msPerDay) = Day t + k"
  using msPerDay_pos by (simp add: Day_def)

lemma Day_minus: "Day (t - k * msPerDay) = Day t - k"
proof -
  have "t - k * msPerDay = t + (- k) * msPerDay" by simp
  then have "Day (t - k * msPerDay) = Day t + (- k)" by (simp only: Day_shift)
  then show ?thesis by simp
qed

lemma Day_TimeWithinDay: "Day t * msPerDay + TimeWithinDay t = t"
  by (simp add: Day_def TimeWithinDay_def)

lemma setDate_fixed:
  assumes "fixedOffset tz off lo hi" "lo \<le> t" "t \<le> hi"
    "lo \<le> t + k * msPerDay" "t + k * msPerDay \<le> hi"
  shows "setDate tz t (getDate tz t + k) = t + k * msPerDay"
proof -
  have u: "tzaUTC tz t = off"
    using assms(1-3) by (simp add: fixedOffset_def)
  have l: "tzaLocal tz (t + k * msPerDay + off) = off"
    using assms(1,4,5) by (simp add: fixedOffset_def)
  have "(Day (t + off) + k) * msPerDay + TimeWithinDay (t + off) = t + k * msPerDay + off"
    using Day_TimeWithinDay[of "t + off"] by (simp add: algebra_simps)
  then show ?thesis
    using l by (simp add: setDate_def getDate_def LocalTime_def UTC_def u Let_def)
qed

lemma fixedOffset_utcZone: "fixedOffset utcZone 0 lo hi"
  by (simp add: fixedOffset_def utcZone_def)

subsection \<open>Auxiliary facts: the loops\<close>





lemma streakKey_fixed:
  assumes "fixedOffset tz off (now - 30 * msPerDay) now" "0 \<le> i" "i < 30"
  shows "toISODate (setDate tz now (getDate tz now - i)) = getTodayDate now - i"
proof -
  have "setDate tz now (getDate tz now + (- i)) = now + (- i) * msPerDay"
    using assms(2,3) msPerDay_pos
    by (intro setDate_fixed[OF assms(1)]) (simp_all add: algebra_simps)
  then have "setDate tz now (getDate tz now - i) = now - i * msPerDay" by simp
  then show ?thesis by (simp add: toISODate_def getTodayDate_def Day_minus)
qed

lemma streakLoop_props:
  "fixedOffset tz off (today - 30 * msPerDay) today \<Longrightarrow> 0 \<le> i \<Longrightarrow> i \<le> 30 \<Longrightarrow>
     i \<le> streakLoop tz dc taskId today i n - n + i \<and>
     streakLoop tz dc taskId today i n - n + i \<le> 30 \<and>
     (\<forall>j. i \<le> j \<and> j < streakLoop tz dc taskId today i n - n + i \<longrightarrow>
        completedOn dc (getTodayDate today - j) taskId) \<and>
     (streakLoop tz dc taskId today i n - n + i < 30 \<longrightarrow>
        \<not> completedOn dc (getTodayDate today - (streakLoop tz dc taskId today i n - n + i)) taskId)"
proof (induction tz dc taskId today i n rule: streakLoop.induct)
  case (1 tz dc taskId today i n)
  let ?T = "getTodayDate today"
  have key: "toISODate (setDate tz today (getDate tz today - i)) = ?T - i" if "i < 30"
    using streakKey_fixed[OF 1(2) 1(3) that] .
  show ?case
  proof (cases "i < 30 \<and> completedOn dc (?T - i) taskId")
    case True
    define r where "r = streakLoop tz dc taskId today (i + 1) (n + 1)"
    have eq: "streakLoop tz dc taskId today i n = r"
      unfolding r_def using True key by (subst streakLoop.simps) simp
    have ih: "i + 1 \<le> r - (n + 1) + (i + 1) \<and> r - (n + 1) + (i + 1) \<le> 30 \<and>
      (\<forall>j. i + 1 \<le> j \<and> j < r - (n + 1) + (i + 1) \<longrightarrow> completedOn dc (?T - j) taskId) \<and>
      (r - (n + 1) + (i + 1) < 30 \<longrightarrow> \<not> completedOn dc (?T - (r - (n + 1) + (i + 1))) taskId)"
      unfolding r_def using 1 True key by simp
    have simp_r: "r - (n + 1) + (i + 1) = r - n + i" by simp
    have "\<forall>j. i \<le> j \<and> j < r - n + i \<longrightarrow> completedOn dc (?T - j) taskId"
    proof (intro allI impI)
      fix j assume j: "i \<le> j \<and> j < r - n + i"
      show "completedOn dc (?T - j) taskId"
      proof (cases "j = i")
        case True then show ?thesis using \<open>i < 30 \<and> completedOn dc (?T - i) taskId\<close> by simp
      next
        case False
        then have "i + 1 \<le> j" using j by simp
        then show ?thesis using ih j simp_r by simp
      qed
    qed
    then show ?thesis using ih unfolding eq simp_r by simp
  next
    case False
    then have "streakLoop tz dc taskId today i n = n"
      using key by (subst streakLoop.simps) auto
    then show ?thesis using False 1(3,4) by auto
  qed
qed

lemma tasksLoop_spec:
  "tasksLoop dc d ts acc =
     (fst acc + int (length (filter (\<lambda>t. completedOn dc d (id_task t)) ts)),
      snd acc + int (length ts))"
  by (induction dc d ts acc rule: tasksLoop.induct) auto

lemma daysLoop_fixed:
  assumes "fixedOffset tz off lo hi" "lo \<le> e - int j * msPerDay" "e + msPerDay \<le> hi"
  shows "daysLoop tz dc ts (e - int j * msPerDay) e acc =
     Some (fst acc +
             (\<Sum>x\<leftarrow>[Day e - int j..Day e].
                int (length (filter (\<lambda>t. completedOn dc x (id_task t)) ts))),
           snd acc + int (length ts) * (int j + 1))"
  using assms(2)
proof (induction j arbitrary: acc)
  case 0
  have n: "setDate tz e (getDate tz e + 1) = e + 1 * msPerDay"
    using assms(1) 0 assms(3) msPerDay_pos by (intro setDate_fixed) auto
  have "daysLoop tz dc ts e e acc =
      daysLoop tz dc ts (e + msPerDay) e (tasksLoop dc (Day e) ts acc)"
    using n by (subst daysLoop.simps) (simp add: toISODate_def)
  also have "\<dots> = Some (tasksLoop dc (Day e) ts acc)"
    using msPerDay_pos by (subst daysLoop.simps) simp
  finally show ?case by (simp add: tasksLoop_spec)
next
  case (Suc j)
  define x where "x = int j * msPerDay"
  define d where "d = e - int (Suc j) * msPerDay"
  define d' where "d' = e - int j * msPerDay"
  have x0: "0 \<le> x" using msPerDay_pos by (simp add: x_def)
  have dx: "d = e - x - msPerDay" by (simp add: d_def x_def algebra_simps)
  have d'x: "d' = e - x" by (simp add: d'_def x_def)
  have next_d: "d + 1 * msPerDay = d'" by (simp add: dx d'x)
  have le: "d \<le> e" using msPerDay_pos x0 unfolding dx by linarith
  have hi1: "d \<le> hi" using msPerDay_pos x0 assms(3) unfolding dx by linarith
  have hi2: "d + 1 * msPerDay \<le> hi" using msPerDay_pos x0 assms(3) unfolding dx by linarith
  have lo1: "lo \<le> d" using Suc.prems by (simp add: d_def)
  have lo2: "lo \<le> d + 1 * msPerDay" using lo1 msPerDay_pos by linarith
  have n: "setDate tz d (getDate tz d + 1) = d'"
    using setDate_fixed[OF assms(1) lo1 hi1 lo2 hi2] next_d by simp
  have lo: "lo \<le> e - int j * msPerDay"
    using lo2 unfolding next_d d'_def .
  have key: "Day d = Day e - int (Suc j)"
    unfolding d_def by (rule Day_minus)
  have up: "[Day e - int (Suc j)..Day e] = (Day e - int (Suc j)) # [Day e - int j..Day e]"
    by (subst upto_rec1) (simp_all add: algebra_simps)
  have "daysLoop tz dc ts d e acc = daysLoop tz dc ts d' e (tasksLoop dc (Day d) ts acc)"
    using le by (subst daysLoop.simps) (simp add: toISODate_def n)
  then have "daysLoop tz dc ts d e acc =
      Some (fst (tasksLoop dc (Day e - int (Suc j)) ts acc) +
             (\<Sum>x\<leftarrow>[Day e - int j..Day e].
                int (length (filter (\<lambda>t. completedOn dc x (id_task t)) ts))),
           snd (tasksLoop dc (Day e - int (Suc j)) ts acc) + int (length ts) * (int j + 1))"
    unfolding d'_def Suc.IH[OF lo] key .
  then show ?case
    unfolding up d_def by (simp add: tasksLoop_spec algebra_simps)
qed

lemma daysLoop_possible:
  "daysLoop tz dc ts d e acc = Some res \<Longrightarrow>
     \<exists>k::nat. snd res = snd acc + int k * int (length ts) \<and>
       (\<forall>dc2 ts2 acc2. \<exists>c2.
          daysLoop tz dc2 ts2 d e acc2 = Some (c2, snd acc2 + int k * int (length ts2)))"
proof (induction rule: daysLoop.raw_induct[rotated 1, consumes 1])
  case (1 daysLoop' tz dc ts d e acc res)
  show ?case
  proof (cases "d \<le> e")
    case True
    with 1(2) have "daysLoop' tz dc ts (setDate tz d (getDate tz d + 1)) e
        (tasksLoop dc (toISODate d) ts acc) = Some res"
      by simp
    from 1(1)[OF this] obtain k :: nat where
      k: "snd res = snd (tasksLoop dc (toISODate d) ts acc) + int k * int (length ts)"
      and others: "\<And>dc2 ts2 acc2. \<exists>c2.
          daysLoop tz dc2 ts2 (setDate tz d (getDate tz d + 1)) e acc2 =
            Some (c2, snd acc2 + int k * int (length ts2))"
      by blast
    have "snd res = snd acc + int (Suc k) * int (length ts)"
      using k by (simp add: tasksLoop_spec algebra_simps)
    moreover have "\<exists>c2. daysLoop tz dc2 ts2 d e acc2 =
        Some (c2, snd acc2 + int (Suc k) * int (length ts2))" for dc2 ts2 acc2
    proof -
      from others[of dc2 ts2 "tasksLoop dc2 (toISODate d) ts2 acc2"] obtain c2 where
        "daysLoop tz dc2 ts2 (setDate tz d (getDate tz d + 1)) e
           (tasksLoop dc2 (toISODate d) ts2 acc2) =
         Some (c2, snd (tasksLoop dc2 (toISODate d) ts2 acc2) + int k * int (length ts2))"
        by blast
      then have "daysLoop tz dc2 ts2 d e acc2 =
          Some (c2, snd acc2 + int (Suc k) * int (length ts2))"
        using True by (subst daysLoop.simps) (simp add: tasksLoop_spec algebra_simps)
      then show ?thesis by blast
    qed
    ultimately show ?thesis by blast
  next
    case False
    with 1(2) have "res = acc" by simp
    moreover have "daysLoop tz dc2 ts2 d e acc2 = Some (fst acc2, snd acc2 + int 0 * int (length ts2))"
      for dc2 ts2 acc2
      using False by (subst daysLoop.simps) simp
    ultimately show ?thesis by (intro exI[of _ "0::nat"]) auto
  qed
qed

lemma weekEndOf_fixed:
  assumes "fixedOffset tz off (now - 28 * msPerDay) (now + msPerDay)" "0 \<le> i" "i < 4"
  shows "weekEndOf tz now i = now - (7 * i) * msPerDay"
proof -
  have "setDate tz now (getDate tz now + (- (i * 7))) = now + (- (i * 7)) * msPerDay"
    using assms(2,3) msPerDay_pos
    by (intro setDate_fixed[OF assms(1)]) (simp_all add: algebra_simps)
  then show ?thesis by (simp add: weekEndOf_def algebra_simps)
qed

lemma weekStartOf_fixed:
  assumes "fixedOffset tz off (now - 28 * msPerDay) (now + msPerDay)" "0 \<le> i" "i < 4"
  shows "weekStartOf tz now i = now - (7 * i) * msPerDay - 6 * msPerDay"
proof -
  let ?e = "now - (7 * i) * msPerDay"
  have "setDate tz ?e (getDate tz ?e + (- 6)) = ?e + (- 6) * msPerDay"
    using assms(2,3) msPerDay_pos
    by (intro setDate_fixed[OF assms(1)]) (simp_all add: algebra_simps)
  then show ?thesis
    by (simp add: weekStartOf_def weekEndOf_fixed[OF assms])
qed

lemma weekTotals_fixed:
  assumes "fixedOffset tz off (now - 28 * msPerDay) (now + msPerDay)" "0 \<le> i" "i < 4"
  shows "weekTotals tz s now i =
     Some (completedSlots s (getTodayDate now - 7 * i - 6) (getTodayDate now - 7 * i),
           7 * int (length (tasks s)))"
proof -
  let ?e = "now - (7 * i) * msPerDay"
  have lo: "now - 28 * msPerDay \<le> ?e - int 6 * msPerDay"
    using assms(2,3) msPerDay_pos by (simp add: algebra_simps)
  have hi: "?e + msPerDay \<le> now + msPerDay"
    using assms(2) msPerDay_pos by simp
  have "daysLoop tz (dailyCompletion s) (tasks s) (?e - int 6 * msPerDay) ?e (0, 0) =
      Some (fst (0::int, 0::int) +
             (\<Sum>x\<leftarrow>[Day ?e - int 6..Day ?e].
                int (length (filter (\<lambda>t. completedOn (dailyCompletion s) x (id_task t)) (tasks s)))),
           snd (0::int, 0::int) + int (length (tasks s)) * (int 6 + 1))"
    by (rule daysLoop_fixed[OF assms(1) lo hi])
  moreover have "Day ?e = Day now - 7 * i" by (rule Day_minus)
  ultimately show ?thesis
    by (simp add: weekTotals_def weekEndOf_fixed[OF assms] weekStartOf_fixed[OF assms]
        completedSlots_def getTodayDate_def toISODate_def)
qed

lemma weekEntryOf_fixed:
  assumes "fixedOffset tz off (now - 28 * msPerDay) (now + msPerDay)" "0 \<le> i" "i < 4"
  shows "weekEntryOf tz s now i =
     Some \<lparr>week = weekLabel i,
           completion = (if tasks s = [] then Num 0
              else percentOf (completedSlots s (getTodayDate now - 7 * i - 6)
                                (getTodayDate now - 7 * i))
                     (int (length (tasks s)) * 7)),
           startDate = toLocaleDate tz now - 7 * i - 6,
           endDate = toLocaleDate tz now - 7 * i\<rparr>"
proof -
  define we where "we = now - (7 * i) * msPerDay"
  define ws where "ws = now - (7 * i) * msPerDay - 6 * msPerDay"
  have u: "tzaUTC tz t = off" if "now - 28 * msPerDay \<le> t" "t \<le> now + msPerDay" for t
    using assms(1) that by (simp add: fixedOffset_def)
  have e: "tzaUTC tz we = off"
    unfolding we_def using assms(2,3) msPerDay_pos by (intro u) (simp_all add: algebra_simps)
  have st: "tzaUTC tz ws = off"
    unfolding ws_def using assms(2,3) msPerDay_pos by (intro u) (simp_all add: algebra_simps)
  have n: "tzaUTC tz now = off"
    using msPerDay_pos by (intro u) simp_all
  have "we + off = now + off - (7 * i) * msPerDay" by (simp add: we_def)
  then have d1: "Day (we + off) = Day (now + off) - 7 * i"
    by (simp only: Day_minus)
  have "ws + off = now + off - (7 * i + 6) * msPerDay" by (simp add: ws_def algebra_simps)
  then have "Day (ws + off) = Day (now + off) - (7 * i + 6)"
    by (simp only: Day_minus)
  then have d2: "Day (ws + off) = Day (now + off) - 7 * i - 6"
    by simp
  have ends: "weekEndOf tz now i = we" "weekStartOf tz now i = ws"
    unfolding we_def ws_def
    by (rule weekEndOf_fixed[OF assms], rule weekStartOf_fixed[OF assms])
  have tot: "weekTotals tz s now i =
     Some (completedSlots s (getTodayDate now - 7 * i - 6) (getTodayDate now - 7 * i),
           7 * int (length (tasks s)))"
    by (rule weekTotals_fixed[OF assms])
  show ?thesis
    unfolding weekEntryOf_def tot ends
    by (simp add: toLocaleDate_def LocalTime_def e st n d1 d2 mult.commute)
qed

subsection \<open>Auxiliary facts: sorting\<close>

lemma insertBy_comparePriority:
  "insertBy comparePriority x ys = insort_key (\<lambda>t. - priorityOrder (priority t)) x ys"
  by (induction ys) (auto simp: comparePriority_def)

lemma sortBy_comparePriority:
  "sortBy comparePriority xs = sort_key (\<lambda>t. - priorityOrder (priority t)) xs"
  by (induction xs) (simp_all add: sortBy_def insertBy_comparePriority)

lemma priorityOrder_inj: "priorityOrder p = priorityOrder q \<longleftrightarrow> p = q"
  by (cases p; cases q) simp_all

lemma prioritySorted_sortBy: "prioritySorted (sortBy comparePriority xs)"
proof -
  have "sorted (map (\<lambda>t. - priorityOrder (priority t))
          (sort_key (\<lambda>t. - priorityOrder (priority t)) xs))"
    by (rule sorted_sort_key)
  then show ?thesis
    by (simp add: prioritySorted_def sortBy_comparePriority sorted_map)
qed

lemma stable_sortBy:
  "filter (hasPriority p) (sortBy comparePriority xs) = filter (hasPriority p) xs"
proof -
  let ?f = "\<lambda>t. - priorityOrder (priority t)"
  have "filter (\<lambda>t. ?f t = - priorityOrder p) (sort_key ?f xs) =
        filter (\<lambda>t. ?f t = - priorityOrder p) xs"
    by (rule sort_key_stable)
  moreover have "(\<lambda>t. ?f t = - priorityOrder p) = hasPriority p"
    by (simp add: fun_eq_iff hasPriority_def priorityOrder_inj)
  ultimately show ?thesis
    by (simp only: sortBy_comparePriority)
qed

lemma mset_sortBy: "mset (sortBy comparePriority xs) = mset xs"
  by (simp add: sortBy_comparePriority)

lemma length_sortBy: "length (sortBy comparePriority xs) = length xs"
  by (simp add: sortBy_comparePriority)

lemma distinct_ids_sortBy:
  "distinct (map id_task (sortBy comparePriority xs)) = distinct (map id_task xs)"
proof -
  have "mset (map id_task (sortBy comparePriority xs)) = mset (map id_task xs)"
    by (simp add: mset_sortBy)
  then show ?thesis by (rule mset_eq_imp_distinct_iff)
qed

subsection \<open>Auxiliary facts: sessions and example states\<close>





lemma beforeRemove_eval:
  "tasks beforeRemove =
     [\<lparr>id_task = 1, name = [0x61], color = ''#FF6B6B'', priority = Medium,
        completedDays = 0, streak = 0, createdAt = 1\<rparr>,
      \<lparr>id_task = 2, name = [0x62], color = ''#4ECDC4'', priority = Medium,
        completedDays = 0, streak = 0, createdAt = 2\<rparr>]"
  "dailyCompletion beforeRemove = [(100, [1 \<mapsto> True, 2 \<mapsto> True])]"
  by (simp_all add: beforeRemove_def savedSession_def removeScenario_def initialApp_def
      addTask_def trim_def isWhiteSpace_def Let_def sortBy_def comparePriority_def colors_def
      toggleTaskCompletion_def truthy_def)

subsection \<open>Completion rate\<close>




text \<open>
  The two conditions on the clock matter. When the millisecond changes between the two
  readings, the last date of the loop lies after the end date and today is not counted:
  two completed days (of six visited) instead of three. Across a change of offset the
  loop reads a date twice: in London on the night after the change of 29 March 2026, one
  completed day counts as two.
\<close>

lemma completionRate_clock_tick:
  "getTaskCompletionRate utcZone threeOfSeven noonOfDay100 (noonOfDay100 + 1) 5 = Some (Num 29)"
  by code_simp

lemma completionRate_offset_change:
  "daysCompletedInWindow (toggleTaskCompletion initialApp 5 20541) (getTodayDate londonNight) 5 = 1 \<and>
   getTaskCompletionRate london2026 (toggleTaskCompletion initialApp 5 20541)
     londonNight londonNight 5 = Some (Num 29)"
  by code_simp

subsection \<open>Saving and reloading\<close>

text \<open>
  C2. The claim is that saving the task collection and the completion log and loading
  them again gives back the state that was saved, and that a removed task does not
  reappear. The saving effect only puts the records of the current tasks, and is skipped
  when no task is left; no record is ever deleted. In the first session below the memory
  holds task 2 alone after the removal, and loading the saved database gives tasks 1
  and 2; in the second the memory holds no task and loading gives task 1. The completion
  log is loaded as it was saved.
\<close>

theorem removed_task_reappears:
  "map id_task (tasks (fst (savedSession removeScenario))) = [2] \<and>
   map id_task (tasks (loadData (snd (savedSession removeScenario)) initialApp)) = [1, 2] \<and>
   dailyCompletion (loadData (snd (savedSession removeScenario)) initialApp) =
     dailyCompletion (fst (savedSession removeScenario)) \<and>
   tasks (fst (savedSession removeLastScenario)) = [] \<and>
   map id_task (tasks (loadData (snd (savedSession removeLastScenario)) initialApp)) = [1]"
  by (simp add: savedSession_def removeScenario_def removeLastScenario_def initialApp_def
      emptyDB_def addTask_def trim_def isWhiteSpace_def Let_def sortBy_def comparePriority_def
      colors_def toggleTaskCompletion_def truthy_def removeTask_def persist_def saveTasks_def
      saveCompletions_def saveToIndexedDB_def loadData_def loadFromIndexedDB_def fun_upd_twist)

subsection \<open>Streak\<close>

text \<open>
  C3. The claim is that \<open>getStreak\<close> walks backward from today one day at a time, at most
  30 days, and counts the consecutive days marked complete, so that it returns 2 when
  today and \<open>today - 1\<close> are complete and \<open>today - 2\<close> is not. The loop steps through the
  local calendar and reads the key of the UTC date. In London at 00:30 on 31 March 2026
  the UTC date is 30 March; the task is marked on 30 and 29 March only; the keys read are
  30, 29, 29 and 28 March, since the change of offset on 29 March puts two local days on
  one UTC date: the result is 3.
\<close>

theorem getStreak_reads_a_date_twice:
  "getTodayDate londonNight = 20542 \<and>
   completedOn (dailyCompletion londonRun) 20542 5 \<and>
   completedOn (dailyCompletion londonRun) (20542 - 1) 5 \<and>
   \<not> completedOn (dailyCompletion londonRun) (20542 - 2) 5 \<and>
   map (\<lambda>i. toISODate (setDate london2026 londonNight (getDate london2026 londonNight - i)))
     [0, 1, 2, 3] = [20542, 20541, 20541, 20540] \<and>
   getStreak london2026 londonRun londonNight 5 = 3"
  by code_simp

text \<open>
  Where the zone keeps one offset over the 30 days, the streak is what the claim says:
  the \<open>k \<le> 30\<close> such that the dates \<open>today, ..., today - (k - 1)\<close> are complete and,
  when \<open>k < 30\<close>, the date \<open>today - k\<close> is not.
\<close>

lemma getStreak_fixed_offset:
  assumes fx: "fixedOffset tz off (now - 30 * msPerDay) now"
  shows
  "(getStreak tz s now taskId = k \<longleftrightarrow>
      0 \<le> k \<and> k \<le> 30 \<and>
      (\<forall>i. 0 \<le> i \<and> i < k \<longrightarrow> completedOn (dailyCompletion s) (getTodayDate now - i) taskId) \<and>
      (k < 30 \<longrightarrow> \<not> completedOn (dailyCompletion s) (getTodayDate now - k) taskId)) \<and>
   (\<not> completedOn (dailyCompletion s) (getTodayDate now) taskId \<longrightarrow> getStreak tz s now taskId = 0) \<and>
   (completedOn (dailyCompletion s) (getTodayDate now) taskId \<and>
    completedOn (dailyCompletion s) (getTodayDate now - 1) taskId \<and>
    \<not> completedOn (dailyCompletion s) (getTodayDate now - 2) taskId \<longrightarrow> getStreak tz s now taskId = 2)"
proof -
  let ?P = "\<lambda>k. 0 \<le> k \<and> k \<le> 30 \<and>
      (\<forall>i. 0 \<le> i \<and> i < k \<longrightarrow> completedOn (dailyCompletion s) (getTodayDate now - i) taskId) \<and>
      (k < 30 \<longrightarrow> \<not> completedOn (dailyCompletion s) (getTodayDate now - k) taskId)"
  have res: "?P (getStreak tz s now taskId)"
    using streakLoop_props[OF fx, of 0 "dailyCompletion s" taskId 0]
    by (simp add: getStreak_def)
  have uniq: "a = b" if "?P a" "?P b" for a b
  proof (rule ccontr)
    assume "a \<noteq> b"
    then consider "a < b" | "b < a" by linarith
    then show False
    proof cases
      case 1
      then have "completedOn (dailyCompletion s) (getTodayDate now - a) taskId" "a < 30"
        using that by auto
      then show False using that by auto
    next
      case 2
      then have "completedOn (dailyCompletion s) (getTodayDate now - b) taskId" "b < 30"
        using that by auto
      then show False using that by auto
    qed
  qed
  have iff: "getStreak tz s now taskId = k \<longleftrightarrow> ?P k" for k
    using res uniq by blast
  have zero: "getStreak tz s now taskId = 0" if "\<not> completedOn (dailyCompletion s) (getTodayDate now) taskId"
    using that by (auto simp: iff)
  have two: "getStreak tz s now taskId = 2"
    if "completedOn (dailyCompletion s) (getTodayDate now) taskId \<and>
        completedOn (dailyCompletion s) (getTodayDate now - 1) taskId \<and>
        \<not> completedOn (dailyCompletion s) (getTodayDate now - 2) taskId"
  proof -
    have "completedOn (dailyCompletion s) (getTodayDate now - i) taskId" if i: "0 \<le> i \<and> i < 2" for i
    proof -
      from i have "i = 0 \<or> i = 1" by auto
      then show ?thesis using \<open>completedOn (dailyCompletion s) (getTodayDate now) taskId \<and> _\<close> by auto
    qed
    then show ?thesis using that by (simp add: iff)
  qed
  show ?thesis using iff zero two by blast
qed

subsection \<open>Toggling a completion\<close>

text \<open>
  C4. For every state, task id and date, toggling the completion of the same (task, date)
  pair twice restores the boolean that the pair read before, where a missing bucket or
  a missing entry reads as false; every other pair keeps its reading too.
\<close>

theorem toggleTaskCompletion_twice:
  "completedOn (dailyCompletion
      (toggleTaskCompletion (toggleTaskCompletion s taskId d) taskId d)) d' t' =
   completedOn (dailyCompletion s) d' t'"
  by (simp add: completedOn_toggle)

theorem toggleTaskCompletion_twice_witness:
  "completedOn (dailyCompletion
      (toggleTaskCompletion (toggleTaskCompletion twoDayRun 5 100) 5 100)) 100 5 \<and>
   completedOn (dailyCompletion twoDayRun) 100 5 \<and>
   \<not> completedOn (dailyCompletion (toggleTaskCompletion twoDayRun 5 100)) 100 5"
proof -
  have "completedOn (dailyCompletion twoDayRun) 100 5"
    by (simp add: twoDayRun_def initialApp_def toggleTaskCompletion_def completedOn_def
        truthy_def)
  moreover have "\<not> completedOn (dailyCompletion (toggleTaskCompletion twoDayRun 5 100)) 100 5"
    by (simp add: twoDayRun_def initialApp_def toggleTaskCompletion_def completedOn_def
        truthy_def)
  ultimately show ?thesis
    using toggleTaskCompletion_twice[of twoDayRun 5 100 100 5] by simp
qed

subsection \<open>Removing a task\<close>

text \<open>
  C5. For every state and task id, after \<open>removeTask\<close> no date bucket of the completion
  log has an entry for the id, the id reads as not completed on every day, no task of the
  list has the id, and the \<open>totalPossible\<close> of every week of the weekly summary counts the
  remaining tasks only: in every time zone it is the number of days the loop visits times
  the number of tasks whose id is not the removed one, and this number of days is the one
  the summary before the removal used; where the zone keeps one offset over the 28 days,
  that is seven slots for each remaining task.
\<close>

theorem removeTask_cascades:
  "(\<forall>(d, b) \<in> set (dailyCompletion (removeTask s taskId)). b taskId = None) \<and>
   (\<forall>d. \<not> completedOn (dailyCompletion (removeTask s taskId)) d taskId) \<and>
   taskId \<notin> id_task ` set (tasks (removeTask s taskId)) \<and>
   (weekTotals tz s now i = Some (c, p) \<longrightarrow>
      (\<exists>k c'. weekTotals tz (removeTask s taskId) now i =
                 Some (c', int k * int (length (filter (\<lambda>t. id_task t \<noteq> taskId) (tasks s)))) \<and>
              p = int k * int (length (filter (\<lambda>t. id_task t \<noteq> taskId) (tasks s))) +
                  int k * int (length (filter (\<lambda>t. id_task t = taskId) (tasks s))))) \<and>
   (fixedOffset tz off (now - 28 * msPerDay) (now + msPerDay) \<and> 0 \<le> i \<and> i < 4 \<longrightarrow>
      map_option snd (weekTotals tz (removeTask s taskId) now i) =
        Some (7 * int (length (filter (\<lambda>t. id_task t \<noteq> taskId) (tasks s)))) \<and>
      map_option snd (weekTotals tz s now i) =
        Some (7 * int (length (filter (\<lambda>t. id_task t \<noteq> taskId) (tasks s))) +
              7 * int (length (filter (\<lambda>t. id_task t = taskId) (tasks s)))))"
proof (intro conjI)
  have split: "length (tasks s) = length (filter (\<lambda>t. id_task t \<noteq> taskId) (tasks s)) +
      length (filter (\<lambda>t. id_task t = taskId) (tasks s))"
    using sum_length_filter_compl[of "\<lambda>t. id_task t \<noteq> taskId" "tasks s"] by simp
  show e: "\<forall>(d, b) \<in> set (dailyCompletion (removeTask s taskId)). b taskId = None"
    by (auto simp: removeTask_def)
  show "\<forall>d. \<not> completedOn (dailyCompletion (removeTask s taskId)) d taskId"
    using completedOn_no_entries[OF e] by simp
  show "taskId \<notin> id_task ` set (tasks (removeTask s taskId))"
    by (auto simp: removeTask_def)
  show "weekTotals tz s now i = Some (c, p) \<longrightarrow>
      (\<exists>k c'. weekTotals tz (removeTask s taskId) now i =
                 Some (c', int k * int (length (filter (\<lambda>t. id_task t \<noteq> taskId) (tasks s)))) \<and>
              p = int k * int (length (filter (\<lambda>t. id_task t \<noteq> taskId) (tasks s))) +
                  int k * int (length (filter (\<lambda>t. id_task t = taskId) (tasks s))))"
  proof
    assume "weekTotals tz s now i = Some (c, p)"
    then have run: "daysLoop tz (dailyCompletion s) (tasks s) (weekStartOf tz now i)
        (weekEndOf tz now i) (0, 0) = Some (c, p)"
      by (simp add: weekTotals_def)
    from daysLoop_possible[OF run] have "\<exists>k::nat. p = int k * int (length (tasks s)) \<and>
        (\<forall>dc2 ts2 acc2. \<exists>c2.
          daysLoop tz dc2 ts2 (weekStartOf tz now i) (weekEndOf tz now i) acc2 =
            Some (c2, snd acc2 + int k * int (length ts2)))"
      by simp
    then obtain k :: nat where
      p: "p = int k * int (length (tasks s))"
      and others: "\<And>dc2 ts2 acc2. \<exists>c2.
          daysLoop tz dc2 ts2 (weekStartOf tz now i) (weekEndOf tz now i) acc2 =
            Some (c2, snd acc2 + int k * int (length ts2))"
      by blast
    from others[of "dailyCompletion (removeTask s taskId)" "tasks (removeTask s taskId)" "(0, 0)"]
    obtain c' where "weekTotals tz (removeTask s taskId) now i =
        Some (c', int k * int (length (filter (\<lambda>t. id_task t \<noteq> taskId) (tasks s))))"
      by (auto simp: weekTotals_def removeTask_def)
    moreover have "p = int k * int (length (filter (\<lambda>t. id_task t \<noteq> taskId) (tasks s))) +
        int k * int (length (filter (\<lambda>t. id_task t = taskId) (tasks s)))"
      using p split by (simp add: algebra_simps)
    ultimately show "\<exists>k c'. weekTotals tz (removeTask s taskId) now i =
                 Some (c', int k * int (length (filter (\<lambda>t. id_task t \<noteq> taskId) (tasks s)))) \<and>
              p = int k * int (length (filter (\<lambda>t. id_task t \<noteq> taskId) (tasks s))) +
                  int k * int (length (filter (\<lambda>t. id_task t = taskId) (tasks s)))"
      by blast
  qed
  show "fixedOffset tz off (now - 28 * msPerDay) (now + msPerDay) \<and> 0 \<le> i \<and> i < 4 \<longrightarrow>
      map_option snd (weekTotals tz (removeTask s taskId) now i) =
        Some (7 * int (length (filter (\<lambda>t. id_task t \<noteq> taskId) (tasks s)))) \<and>
      map_option snd (weekTotals tz s now i) =
        Some (7 * int (length (filter (\<lambda>t. id_task t \<noteq> taskId) (tasks s))) +
              7 * int (length (filter (\<lambda>t. id_task t = taskId) (tasks s))))"
  proof
    assume h: "fixedOffset tz off (now - 28 * msPerDay) (now + msPerDay) \<and> 0 \<le> i \<and> i < 4"
    then have fx: "fixedOffset tz off (now - 28 * msPerDay) (now + msPerDay)"
      and i: "0 \<le> i" "i < 4" by auto
    show "map_option snd (weekTotals tz (removeTask s taskId) now i) =
        Some (7 * int (length (filter (\<lambda>t. id_task t \<noteq> taskId) (tasks s)))) \<and>
      map_option snd (weekTotals tz s now i) =
        Some (7 * int (length (filter (\<lambda>t. id_task t \<noteq> taskId) (tasks s))) +
              7 * int (length (filter (\<lambda>t. id_task t = taskId) (tasks s))))"
      using split by (simp add: weekTotals_fixed[OF fx i] removeTask_def)
  qed
qed

theorem removeTask_cascades_witness:
  "dailyCompletion (removeTask beforeRemove 1) = [(100, [2 \<mapsto> True])] \<and>
   map id_task (tasks (removeTask beforeRemove 1)) = [2] \<and>
   weekTotals utcZone beforeRemove noonOfDay100 0 = Some (2, 14) \<and>
   map_option snd (weekTotals utcZone beforeRemove noonOfDay100 0) = Some 14 \<and>
   map_option snd (weekTotals utcZone (removeTask beforeRemove 1) noonOfDay100 0) = Some 7"
proof -
  have "dailyCompletion (removeTask beforeRemove 1) = [(100, [2 \<mapsto> True])]"
    by (simp add: removeTask_def beforeRemove_eval fun_upd_twist)
  moreover have "map id_task (tasks (removeTask beforeRemove 1)) = [2]"
    by (simp add: removeTask_def beforeRemove_eval)
  moreover have "length (filter (\<lambda>t. id_task t \<noteq> 1) (tasks beforeRemove)) = 1"
    "length (filter (\<lambda>t. id_task t = 1) (tasks beforeRemove)) = 1"
    by (simp_all add: beforeRemove_eval)
  moreover have t: "getTodayDate noonOfDay100 = 100"
    by (simp add: getTodayDate_def toISODate_def Day_def msPerDay_def noonOfDay100_def)
  have "weekTotals utcZone beforeRemove noonOfDay100 0 = Some (2, 14)"
    using weekTotals_fixed[where tz = utcZone and off = 0 and now = noonOfDay100 and i = 0
        and s = beforeRemove, OF fixedOffset_utcZone]
    by (simp add: t beforeRemove_eval completedSlots_def completedOn_def truthy_def)
  ultimately show ?thesis
    using removeTask_cascades[of beforeRemove 1 utcZone noonOfDay100 0 2 14 0]
    by (simp add: fixedOffset_utcZone)
qed

subsection \<open>Adding a task\<close>

text \<open>
  C6 (as amended). For every task collection and every name whose trimmed value is not
  empty, \<open>addTask\<close> makes the list one longer: the tasks are those before plus one new
  task, whose id is the clock reading \<^verbatim>\<open>Date.now()\<close>, whose colour is the palette entry
  at the former number of tasks modulo the palette size, and whose name is the trimmed
  name. The id is not among the former ids whenever the clock reading is not among them,
  and then ids that were unique stay unique. For a name whose trimmed value is empty,
  \<open>addTask\<close> changes nothing.
\<close>

theorem addTask_adds_one:
  "(trim (newTaskName s) \<noteq> [] \<longrightarrow>
      length (tasks (addTask s now created)) = length (tasks s) + 1 \<and>
      (\<exists>t. mset (tasks (addTask s now created)) = add_mset t (mset (tasks s)) \<and>
           id_task t = now \<and>
           (now \<notin> id_task ` set (tasks s) \<longrightarrow> id_task t \<notin> id_task ` set (tasks s)) \<and>
           color t = colors ! (length (tasks s) mod length colors) \<and>
           name t = trim (newTaskName s) \<and> priority t = newTaskPriority s) \<and>
      (now \<notin> id_task ` set (tasks s) \<and> distinct (map id_task (tasks s)) \<longrightarrow>
         distinct (map id_task (tasks (addTask s now created))))) \<and>
   (trim (newTaskName s) = [] \<longrightarrow> addTask s now created = s)"
  by (auto simp: addTask_def Let_def length_sortBy mset_sortBy distinct_ids_sortBy)

theorem addTask_adds_one_witness:
  "trim (newTaskName (oneTask\<lparr>newTaskName := [0x62]\<rparr>)) \<noteq> [] \<and>
   7 \<notin> id_task ` set (tasks oneTask) \<and>
   length (tasks (addTask (oneTask\<lparr>newTaskName := [0x62]\<rparr>) 7 7)) = 2 \<and>
   distinct (map id_task (tasks (addTask (oneTask\<lparr>newTaskName := [0x62]\<rparr>) 7 7))) \<and>
   trim (newTaskName (oneTask\<lparr>newTaskName := [0x20]\<rparr>)) = [] \<and>
   addTask (oneTask\<lparr>newTaskName := [0x20]\<rparr>) 7 7 = oneTask\<lparr>newTaskName := [0x20]\<rparr>"
proof -
  have a: "trim (newTaskName (oneTask\<lparr>newTaskName := [0x62]\<rparr>)) \<noteq> []"
    by (simp add: trim_def isWhiteSpace_def)
  have b: "trim (newTaskName (oneTask\<lparr>newTaskName := [0x20]\<rparr>)) = []"
    by (simp add: trim_def isWhiteSpace_def)
  have c: "length (tasks oneTask) = 1" "7 \<notin> id_task ` set (tasks oneTask)"
    "distinct (map id_task (tasks oneTask))"
    by (simp_all add: oneTask_def addTask_def initialApp_def trim_def isWhiteSpace_def Let_def
      sortBy_def)
  show ?thesis
    using addTask_adds_one[of "oneTask\<lparr>newTaskName := [0x62]\<rparr>" 7 7]
      addTask_adds_one[of "oneTask\<lparr>newTaskName := [0x20]\<rparr>" 7 7] a b c
    by simp
qed

text \<open>
  No check makes the id fresh: with the clock reading of an earlier task, two tasks share
  an id.
\<close>

theorem addTask_fresh_id_counterexample:
  "trim (newTaskName (oneTask\<lparr>newTaskName := [0x62]\<rparr>)) \<noteq> [] \<and>
   map id_task (tasks oneTask) = [5] \<and>
   map id_task (tasks (addTask (oneTask\<lparr>newTaskName := [0x62]\<rparr>) 5 6)) = [5, 5]"
  by (simp add: oneTask_def addTask_def initialApp_def trim_def isWhiteSpace_def Let_def
      sortBy_def comparePriority_def colors_def)

subsection \<open>Toggling for an id without a task\<close>

text \<open>
  C7 (as amended). For every state and every id that does not reference an existing task,
  \<open>toggleTaskCompletion\<close> reports no error: it flips the entry of the (date, id) pair in
  the completion log as it does for an existing task, and so changes the log. It leaves
  the task list as it is and never reads it.
\<close>

theorem toggle_unknown_task:
  "taskId \<notin> id_task ` set (tasks s) \<Longrightarrow>
     completedOn (dailyCompletion (toggleTaskCompletion s taskId d)) d taskId =
       (\<not> completedOn (dailyCompletion s) d taskId) \<and>
     dailyCompletion (toggleTaskCompletion s taskId d) \<noteq> dailyCompletion s \<and>
     tasks (toggleTaskCompletion s taskId d) = tasks s \<and>
     toggleTaskCompletion (s\<lparr>tasks := ts\<rparr>) taskId d =
       (toggleTaskCompletion s taskId d)\<lparr>tasks := ts\<rparr>"
proof (intro conjI)
  show flip: "completedOn (dailyCompletion (toggleTaskCompletion s taskId d)) d taskId =
       (\<not> completedOn (dailyCompletion s) d taskId)"
    by (simp add: completedOn_toggle)
  show "dailyCompletion (toggleTaskCompletion s taskId d) \<noteq> dailyCompletion s"
    using flip by auto
  show "tasks (toggleTaskCompletion s taskId d) = tasks s"
    by (simp add: toggleTaskCompletion_def Let_def)
  show "toggleTaskCompletion (s\<lparr>tasks := ts\<rparr>) taskId d =
       (toggleTaskCompletion s taskId d)\<lparr>tasks := ts\<rparr>"
    by (simp add: toggleTaskCompletion_def Let_def)
qed

theorem toggle_unknown_task_witness:
  "9 \<notin> id_task ` set (tasks oneTask) \<and>
   \<not> completedOn (dailyCompletion oneTask) 100 9 \<and>
   completedOn (dailyCompletion (toggleTaskCompletion oneTask 9 100)) 100 9 \<and>
   tasks (toggleTaskCompletion oneTask 9 100) = tasks oneTask"
proof -
  have a: "9 \<notin> id_task ` set (tasks oneTask)" "\<not> completedOn (dailyCompletion oneTask) 100 9"
    by (simp_all add: oneTask_def addTask_def initialApp_def trim_def isWhiteSpace_def Let_def
      sortBy_def completedOn_def)
  show ?thesis using toggle_unknown_task[OF a(1), of 100] a by simp
qed

text \<open>With no task at all, toggling id 1 on day 0 creates the bucket and the entry.\<close>

theorem toggle_unknown_task_counterexample:
  "1 \<notin> id_task ` set (tasks initialApp) \<and>
   dailyCompletion initialApp = [] \<and>
   dailyCompletion (toggleTaskCompletion initialApp 1 0) = [(0, [1 \<mapsto> True])]"
  by (simp add: initialApp_def toggleTaskCompletion_def truthy_def)

subsection \<open>Weekly summary\<close>

text \<open>
  C8. The claim is that \<open>getWeeklySummary\<close> returns 4 entries that divide the most recent
  28 days into four windows of 7 days, in chronological order, each with the percentage
  of its completed slots among the number of tasks times 7. The loops step through the
  local calendar and read the keys of the UTC dates. In London at 00:30 on 31 March 2026,
  with one task completed on 29 March only, the last window reads the date 29 March
  twice: 2 completed slots of 7 and 29 percent, where one completed slot of 7 is 14
  percent. In New York at 02:30 on 11 March 2026 the days of the last window start at
  02:30, which the change of 8 March skips, so that the loop runs 6 times, not 7, and
  never reads today: 0 of 6 slots for a task completed today.
\<close>

theorem getWeeklySummary_reads_a_date_twice:
  "map_option (map completion) (getWeeklySummary london2026 londonTask londonNight) =
     Some [Num 0, Num 0, Num 0, Num 29] \<and>
   map_option (map (\<lambda>w. (startDate w, endDate w)))
     (getWeeklySummary london2026 londonTask londonNight) =
     Some [(20516, 20522), (20523, 20529), (20530, 20536), (20537, 20543)] \<and>
   length (tasks londonTask) = 1 \<and>
   completedSlots londonTask 20516 20543 = 1 \<and>
   percentOf 1 7 = Num 14 \<and>
   weekTotals london2026 londonTask londonNight 0 = Some (2, 7) \<and>
   getTodayDate newYorkNight = 20523 \<and>
   completedOn (dailyCompletion newYorkTask) 20523 5 \<and>
   weekTotals newYork2026 newYorkTask newYorkNight 0 = Some (0, 6)"
  by code_simp

text \<open>
  Where the zone keeps one offset over the 28 days, the summary is what the claim says:
  four entries, the reverse of the order in which the loop computes them, for the windows
  \<open>[today - 27, today - 21]\<close>, \<open>[today - 20, today - 14]\<close>, \<open>[today - 13, today - 7]\<close>
  and \<open>[today - 6, today]\<close> of UTC dates, shown with the local dates; the percentage is
  \<^verbatim>\<open>Math.round\<close> of the hundredfold quotient in doubles, and 0 when there are no tasks.
\<close>

lemma getWeeklySummary_fixed_offset:
  assumes "fixedOffset tz off (now - 28 * msPerDay) (now + msPerDay)"
  shows "getWeeklySummary tz s now =
     Some (map (\<lambda>i. \<lparr>week = weekLabel i,
           completion = (if tasks s = [] then Num 0
              else percentOf (completedSlots s (getTodayDate now - 7 * i - 6)
                                (getTodayDate now - 7 * i))
                     (int (length (tasks s)) * 7)),
           startDate = toLocaleDate tz now - 7 * i - 6,
           endDate = toLocaleDate tz now - 7 * i\<rparr>) [3, 2, 1, 0])"
  by (simp add: getWeeklySummary_def weeksLoop.simps weekEntryOf_fixed[OF assms])

subsection \<open>Order of the task list\<close>

text \<open>
  C9. After \<open>addTask\<close> (with a name that is not empty after trimming), after
  \<open>updateTask\<close> and after the load at startup (of a store that holds tasks), the task list
  is sorted by priority, high before medium before low, and the sort is stable: the tasks
  of each priority stand in the order they had in the list that was sorted.
\<close>

theorem tasks_sorted_by_priority:
  "(trim (newTaskName s) \<noteq> [] \<longrightarrow>
      prioritySorted (tasks (addTask s now created)) \<and>
      (\<exists>t. id_task t = now \<and>
        (\<forall>p. filter (hasPriority p) (tasks (addTask s now created)) =
              filter (hasPriority p) (tasks s @ [t])))) \<and>
   prioritySorted (tasks (updateTask s taskId u)) \<and>
   (\<forall>p. filter (hasPriority p) (tasks (updateTask s taskId u)) =
        filter (hasPriority p)
          (map (\<lambda>t. if id_task t = taskId then applyUpdates t u else t) (tasks s))) \<and>
   (tasksStore st \<noteq> [] \<longrightarrow>
      prioritySorted (tasks (loadData st s)) \<and>
      (\<forall>p. filter (hasPriority p) (tasks (loadData st s)) =
           filter (hasPriority p) (loadFromIndexedDB (tasksStore st))))"
proof (intro conjI impI allI)
  assume "trim (newTaskName s) \<noteq> []"
  then show "prioritySorted (tasks (addTask s now created))"
    by (simp add: addTask_def Let_def prioritySorted_sortBy)
next
  assume n: "trim (newTaskName s) \<noteq> []"
  let ?t = "\<lparr>id_task = now, name = trim (newTaskName s),
              color = colors ! (length (tasks s) mod length colors),
              priority = newTaskPriority s, completedDays = 0, streak = 0,
              createdAt = created\<rparr>"
  have "id_task ?t = now \<and>
        (\<forall>p. filter (hasPriority p) (tasks (addTask s now created)) =
              filter (hasPriority p) (tasks s @ [?t]))"
    using n by (simp add: addTask_def Let_def stable_sortBy)
  then show "\<exists>t. id_task t = now \<and>
        (\<forall>p. filter (hasPriority p) (tasks (addTask s now created)) =
              filter (hasPriority p) (tasks s @ [t]))"
    by blast
next
  show "prioritySorted (tasks (updateTask s taskId u))"
    by (simp add: updateTask_def Let_def prioritySorted_sortBy)
next
  fix p
  show "filter (hasPriority p) (tasks (updateTask s taskId u)) =
        filter (hasPriority p)
          (map (\<lambda>t. if id_task t = taskId then applyUpdates t u else t) (tasks s))"
    by (simp add: updateTask_def Let_def stable_sortBy)
next
  assume "tasksStore st \<noteq> []"
  then show "prioritySorted (tasks (loadData st s))"
    by (simp add: loadData_def Let_def loadFromIndexedDB_def prioritySorted_sortBy)
next
  fix p
  assume "tasksStore st \<noteq> []"
  then show "filter (hasPriority p) (tasks (loadData st s)) =
           filter (hasPriority p) (loadFromIndexedDB (tasksStore st))"
    by (simp add: loadData_def Let_def loadFromIndexedDB_def stable_sortBy)
qed

theorem tasks_sorted_by_priority_witness:
  "trim (newTaskName (oneTask\<lparr>newTaskName := [0x62], newTaskPriority := High\<rparr>)) \<noteq> [] \<and>
   map priority (tasks oneTask) = [Low] \<and>
   map priority
     (tasks (addTask (oneTask\<lparr>newTaskName := [0x62], newTaskPriority := High\<rparr>) 6 6)) =
     [High, Low] \<and>
   prioritySorted
     (tasks (addTask (oneTask\<lparr>newTaskName := [0x62], newTaskPriority := High\<rparr>) 6 6))"
proof -
  have a: "trim (newTaskName (oneTask\<lparr>newTaskName := [0x62], newTaskPriority := High\<rparr>)) \<noteq> []"
    by (simp add: trim_def isWhiteSpace_def)
  have b: "map priority (tasks oneTask) = [Low]"
    "map priority
      (tasks (addTask (oneTask\<lparr>newTaskName := [0x62], newTaskPriority := High\<rparr>) 6 6)) =
      [High, Low]"
    by (simp_all add: oneTask_def addTask_def initialApp_def trim_def isWhiteSpace_def Let_def
        sortBy_def comparePriority_def)
  show ?thesis
    using tasks_sorted_by_priority
      [of "oneTask\<lparr>newTaskName := [0x62], newTaskPriority := High\<rparr>" 6 6] a b
    by simp
qed

text \<open>
  Removing a task and the other actions keep the list sorted, so the list is sorted in
  every state of a session that starts with the load.
\<close>

lemma prioritySorted_perform:
  assumes "prioritySorted (tasks s)"
  shows "prioritySorted (tasks (perform s a))"
proof (cases a)
  case (AddTask now created)
  then show ?thesis
    using assms by (simp add: addTask_def Let_def prioritySorted_sortBy)
next
  case (UpdateTask taskId u)
  then show ?thesis
    by (simp add: updateTask_def Let_def prioritySorted_sortBy)
next
  case (RemoveTask taskId)
  then show ?thesis
    using assms by (simp add: removeTask_def prioritySorted_def sorted_wrt_filter)
next
  case (ToggleTaskCompletion taskId d)
  then show ?thesis
    using assms by (simp add: toggleTaskCompletion_def Let_def)
qed (use assms in simp_all)

lemma prioritySorted_session:
  "prioritySorted (tasks s) \<Longrightarrow> prioritySorted (tasks (session s acts))"
  unfolding session_def
  by (induction acts arbitrary: s) (simp_all add: prioritySorted_perform)

lemma prioritySorted_loadData: "prioritySorted (tasks (loadData st initialApp))"
proof (cases "tasksStore st = []")
  case True
  then show ?thesis
    by (simp add: loadData_def Let_def loadFromIndexedDB_def initialApp_def prioritySorted_def)
next
  case False
  then show ?thesis
    by (simp add: loadData_def Let_def loadFromIndexedDB_def prioritySorted_sortBy)
qed

subsection \<open>Buckets and entries persist\<close>



end
